theory Spec2Isabelle
  imports Main
begin

section \<open>Read cursors over byte sources (qnoncontiguousbytedevice.cpp)\<close>

text \<open>
  The file implements \<open>QNonContiguousByteDevice\<close>: a cursor that hands out pointers
  into a byte source (\<open>readPointer\<close>), is told how much was consumed
  (\<open>advanceReadPointer\<close>), and can be rewound (\<open>reset\<close>).

  Conventions of the embedding:
  \<^item> \<open>qint64\<close> values are \<open>int\<close>. Signed overflow is undefined behaviour in C++, so the
    model describes the executions in which no addition leaves the 64-bit range.
  \<^item> a \<open>const char *\<close> result is \<open>nullptr\<close> or \<open>Ptr off\<close>, the offset into the
    storage the cursor reads from (the byte array, or the internal read buffer).
  \<^item> \<open>emit readProgress(current, total)\<close> is an element of the list of events that
    every operation returns beside its result and the new state.
  \<^item> a member function becomes a function from the object's fields (a record) to its
    result, the emitted events and the updated record.
\<close>

subsection \<open>Common types\<close>

datatype ptr = nullptr | Ptr int

datatype event = readProgress int int

fun current :: "event \<Rightarrow> int" where
  "current (readProgress c t) = c"

fun total :: "event \<Rightarrow> int" where
  "total (readProgress c t) = t"

text \<open>The bytes a caller may read through a pointer of the given length.\<close>

fun deref :: "string \<Rightarrow> ptr \<Rightarrow> int \<Rightarrow> string" where
  "deref mem nullptr n = []"
| "deref mem (Ptr off) n = take (nat n) (drop (nat off) mem)"

subsection \<open>QNonContiguousByteDeviceByteArrayImpl\<close>

record ByteArrayImpl =
  byteArray :: string
  currentPosition :: int

definition ByteArrayImpl_new :: "string \<Rightarrow> ByteArrayImpl" where
  "ByteArrayImpl_new ba = \<lparr>byteArray = ba, currentPosition = 0\<rparr>"

definition ByteArrayImpl_size :: "ByteArrayImpl \<Rightarrow> int" where
  "ByteArrayImpl_size s = int (length (byteArray s))"

definition ByteArrayImpl_atEnd :: "ByteArrayImpl \<Rightarrow> bool" where
  "ByteArrayImpl_atEnd s = (currentPosition s \<ge> ByteArrayImpl_size s)"

definition ByteArrayImpl_readPointer :: "ByteArrayImpl \<Rightarrow> int \<Rightarrow> ptr \<times> int" where
  "ByteArrayImpl_readPointer s maximumLength =
     (if ByteArrayImpl_atEnd s then (nullptr, -1)
      else (Ptr (currentPosition s),
            if maximumLength \<noteq> -1
            then min maximumLength (ByteArrayImpl_size s - currentPosition s)
            else ByteArrayImpl_size s - currentPosition s))"

definition ByteArrayImpl_advanceReadPointer ::
  "ByteArrayImpl \<Rightarrow> int \<Rightarrow> bool \<times> event list \<times> ByteArrayImpl" where
  "ByteArrayImpl_advanceReadPointer s amount =
     (let s' = s\<lparr>currentPosition := currentPosition s + amount\<rparr>
      in (True, [readProgress (currentPosition s') (ByteArrayImpl_size s')], s'))"

definition ByteArrayImpl_reset :: "ByteArrayImpl \<Rightarrow> bool \<times> ByteArrayImpl" where
  "ByteArrayImpl_reset s = (True, s\<lparr>currentPosition := 0\<rparr>)"

definition ByteArrayImpl_pos :: "ByteArrayImpl \<Rightarrow> int" where
  "ByteArrayImpl_pos s = currentPosition s"

text \<open>Calls a consumer can make on a cursor, and a run of such calls.\<close>

datatype call = ReadPointer int | AdvanceReadPointer int | AtEnd | Reset

fun ByteArrayImpl_call :: "ByteArrayImpl \<Rightarrow> call \<Rightarrow> event list \<times> ByteArrayImpl" where
  "ByteArrayImpl_call s (ReadPointer n) = ([], s)"
| "ByteArrayImpl_call s (AdvanceReadPointer n) = snd (ByteArrayImpl_advanceReadPointer s n)"
| "ByteArrayImpl_call s AtEnd = ([], s)"
| "ByteArrayImpl_call s Reset = ([], snd (ByteArrayImpl_reset s))"

fun ByteArrayImpl_run :: "ByteArrayImpl \<Rightarrow> call list \<Rightarrow> event list \<times> ByteArrayImpl" where
  "ByteArrayImpl_run s [] = ([], s)"
| "ByteArrayImpl_run s (c # cs) =
     (case ByteArrayImpl_call s c of (ev, s') \<Rightarrow>
        (case ByteArrayImpl_run s' cs of (evs, s'') \<Rightarrow> (ev @ evs, s'')))"

text \<open>
  The caller's side of the contract: an advance is by a non-negative amount that does
  not exceed the bytes the cursor still has (\<open>size - position\<close>, the most that
  \<open>readPointer\<close> offers).
\<close>

fun ByteArrayImpl_within :: "ByteArrayImpl \<Rightarrow> call list \<Rightarrow> bool" where
  "ByteArrayImpl_within s [] = True"
| "ByteArrayImpl_within s (c # cs) =
     ((case c of
         AdvanceReadPointer n \<Rightarrow> 0 \<le> n \<and> n \<le> ByteArrayImpl_size s - currentPosition s
       | _ \<Rightarrow> True)
      \<and> ByteArrayImpl_within (snd (ByteArrayImpl_call s c)) cs)"



subsection \<open>QNonContiguousByteDeviceBufferImpl\<close>

text \<open>
  \<open>QBuffer\<close> is declared outside this file. The constructor reads its content
  (\<open>buffer()\<close>, whose length is \<open>size()\<close>) and its read position (\<open>pos()\<close>).
\<close>

record QBuffer =
  qb_buffer :: string
  qb_pos :: int

text \<open>
  The member \<open>byteArray\<close>, the window of the buffer from its read position on, is the
  array that \<open>arrayImpl\<close> reads: it is the \<open>byteArray\<close> field of \<open>arrayImpl\<close> here.
  The constructor connects \<open>readProgress\<close> of \<open>arrayImpl\<close> to its own, so the events
  of \<open>arrayImpl\<close> are the events of this cursor.
\<close>

record BufferImpl =
  buffer :: QBuffer
  arrayImpl :: ByteArrayImpl



definition BufferImpl_readPointer :: "BufferImpl \<Rightarrow> int \<Rightarrow> ptr \<times> int" where
  "BufferImpl_readPointer s maximumLength = ByteArrayImpl_readPointer (arrayImpl s) maximumLength"


definition BufferImpl_atEnd :: "BufferImpl \<Rightarrow> bool" where
  "BufferImpl_atEnd s = ByteArrayImpl_atEnd (arrayImpl s)"






subsection \<open>QNonContiguousByteDeviceRingBufferImpl\<close>

text \<open>
  \<open>QRingBuffer\<close> is declared outside this file. The cursor uses two of its member
  functions, taken as a parameter over the ring buffer's own state \<open>'r\<close>:
  \<open>ring_readPointerAtPosition r pos\<close> is the pointer that
  \<open>readPointerAtPosition(pos, len)\<close> returns and the length it stores in \<open>len\<close>. The
  ring buffer is shared with its other holders; no call on the cursor changes it.
\<close>

record 'r QRingBuffer =
  ring_size :: "'r \<Rightarrow> int"
  ring_readPointerAtPosition :: "'r \<Rightarrow> int \<Rightarrow> ptr \<times> int"

text \<open>
  The member \<open>currentPosition\<close> of this class; the name carries a suffix because the
  byte-array cursor has a member of the same name.
\<close>

record 'r RingBufferImpl =
  ringBuffer :: 'r
  currentPosition_rb :: int


definition RingBufferImpl_size :: "'r QRingBuffer \<Rightarrow> 'r RingBufferImpl \<Rightarrow> int" where
  "RingBufferImpl_size rb s = ring_size rb (ringBuffer s)"

definition RingBufferImpl_atEnd :: "'r QRingBuffer \<Rightarrow> 'r RingBufferImpl \<Rightarrow> bool" where
  "RingBufferImpl_atEnd rb s = (currentPosition_rb s \<ge> RingBufferImpl_size rb s)"

definition RingBufferImpl_readPointer ::
  "'r QRingBuffer \<Rightarrow> 'r RingBufferImpl \<Rightarrow> int \<Rightarrow> ptr \<times> int" where
  "RingBufferImpl_readPointer rb s maximumLength =
     (if RingBufferImpl_atEnd rb s then (nullptr, -1)
      else
        (case ring_readPointerAtPosition rb (ringBuffer s) (currentPosition_rb s) of
           (returnValue, len) \<Rightarrow>
             (returnValue, if maximumLength \<noteq> -1 then min len maximumLength else len)))"


definition RingBufferImpl_pos :: "'r RingBufferImpl \<Rightarrow> int" where
  "RingBufferImpl_pos s = currentPosition_rb s"





subsection \<open>The underlying QIODevice\<close>

text \<open>
  \<open>QIODevice\<close> is declared outside this file. The cursor uses eight of its member
  functions; they are taken as a parameter, a record of functions over the device's
  own state \<open>'d\<close>. \<open>dev_read d n\<close> returns the count that \<open>read(buf, n)\<close>
  returns, the bytes it stored at the start of \<open>buf\<close>, and the device afterwards.
\<close>

record 'd QIODevice =
  dev_read :: "'d \<Rightarrow> int \<Rightarrow> int \<times> string \<times> 'd"
  dev_getChar :: "'d \<Rightarrow> bool \<times> 'd"
  dev_atEnd :: "'d \<Rightarrow> bool"
  dev_isSequential :: "'d \<Rightarrow> bool"
  dev_reset :: "'d \<Rightarrow> bool \<times> 'd"
  dev_seek :: "'d \<Rightarrow> int \<Rightarrow> bool \<times> 'd"
  dev_size :: "'d \<Rightarrow> int"
  dev_pos :: "'d \<Rightarrow> int"

subsection \<open>QNonContiguousByteDeviceIoDeviceImpl\<close>

record 'd IoDeviceImpl =
  device :: 'd
  currentReadBuffer :: "string option"
  currentReadBufferSize :: int
  currentReadBufferAmount :: int
  currentReadBufferPosition :: int
  totalAdvancements :: int
  eof :: bool
  initialPosition :: int

definition IoDeviceImpl_new :: "'d QIODevice \<Rightarrow> 'd \<Rightarrow> 'd IoDeviceImpl" where
  "IoDeviceImpl_new io d =
     \<lparr>device = d,
      currentReadBuffer = None,
      currentReadBufferSize = 16 * 1024,
      currentReadBufferAmount = 0,
      currentReadBufferPosition = 0,
      totalAdvancements = 0,
      eof = False,
      initialPosition = dev_pos io d\<rparr>"

definition IoDeviceImpl_size :: "'d QIODevice \<Rightarrow> 'd IoDeviceImpl \<Rightarrow> int" where
  "IoDeviceImpl_size io s =
     (if dev_isSequential io (device s) then -1
      else dev_size io (device s) - initialPosition s)"

definition IoDeviceImpl_pos :: "'d QIODevice \<Rightarrow> 'd IoDeviceImpl \<Rightarrow> int" where
  "IoDeviceImpl_pos io s =
     (if dev_isSequential io (device s) then -1 else dev_pos io (device s))"

definition IoDeviceImpl_atEnd :: "'d IoDeviceImpl \<Rightarrow> bool" where
  "IoDeviceImpl_atEnd s = eof s"

text \<open>\<open>new QByteArray(n, '\0')\<close>, and a read of the device into the start of a buffer.\<close>

definition QByteArray_filled :: "int \<Rightarrow> string" where
  "QByteArray_filled n = replicate (nat n) (CHR 0x00)"

definition stored :: "string \<Rightarrow> string \<Rightarrow> string" where
  "stored bytes buf = bytes @ drop (length bytes) buf"

definition IoDeviceImpl_readPointer ::
  "'d QIODevice \<Rightarrow> 'd IoDeviceImpl \<Rightarrow> int \<Rightarrow> (ptr \<times> int) \<times> event list \<times> 'd IoDeviceImpl" where
  "IoDeviceImpl_readPointer io s maximumLength =
     (if eof s then ((nullptr, -1), [], s)
      else
        let s1 = (if currentReadBuffer s = None
                  then s\<lparr>currentReadBuffer := Some (QByteArray_filled (currentReadBufferSize s))\<rparr>
                  else s);
            maximumLength' = (if maximumLength = -1 then currentReadBufferSize s1
                              else maximumLength)
        in if currentReadBufferAmount s1 - currentReadBufferPosition s1 > 0
           then ((Ptr (currentReadBufferPosition s1),
                  currentReadBufferAmount s1 - currentReadBufferPosition s1), [], s1)
           else
             (case dev_read io (device s1) (min maximumLength' (currentReadBufferSize s1)) of
                (haveRead, bytes, d') \<Rightarrow>
                  let s2 = s1\<lparr>device := d',
                              currentReadBuffer :=
                                map_option (stored bytes) (currentReadBuffer s1)\<rparr>
                  in if haveRead = -1
                        \<or> (haveRead = 0 \<and> dev_atEnd io d' \<and> \<not> dev_isSequential io d')
                     then
                       (let s3 = s2\<lparr>eof := True\<rparr>
                        in ((nullptr, -1),
                            (if IoDeviceImpl_size io s3 = -1
                             then [readProgress (totalAdvancements s3) (totalAdvancements s3)]
                             else []),
                            s3))
                     else ((Ptr 0, haveRead), [],
                           s2\<lparr>currentReadBufferAmount := haveRead,
                              currentReadBufferPosition := 0\<rparr>)))"

text \<open>
  The loop \<open>while (i > 0) { if (!device->getChar(nullptr)) ...; i--; }\<close>: the result is
  \<open>Some i\<close> with the value of \<open>i\<close> at the failing \<open>getChar\<close>, or \<open>None\<close> when the
  loop ran to its end; beside it the device after the calls made.
\<close>

function discard :: "'d QIODevice \<Rightarrow> 'd \<Rightarrow> int \<Rightarrow> int option \<times> 'd" where
  "discard io d i =
     (if i > 0
      then (case dev_getChar io d of
              (False, d') \<Rightarrow> (Some i, d')
            | (True, d') \<Rightarrow> discard io d' (i - 1))
      else (None, d))"
  by pat_completeness auto
termination
  by (relation "measure (\<lambda>(io, d, i). nat i)") auto

declare discard.simps [simp del]

definition IoDeviceImpl_advanceReadPointer ::
  "'d QIODevice \<Rightarrow> 'd IoDeviceImpl \<Rightarrow> int \<Rightarrow> bool \<times> event list \<times> 'd IoDeviceImpl" where
  "IoDeviceImpl_advanceReadPointer io s amount =
     (let s1 = s\<lparr>totalAdvancements := totalAdvancements s + amount,
                 currentReadBufferPosition := currentReadBufferPosition s + amount\<rparr>;
          ev1 = (if IoDeviceImpl_size io s1 = -1
                 then [readProgress (totalAdvancements s1) (totalAdvancements s1)]
                 else [readProgress (totalAdvancements s1) (IoDeviceImpl_size io s1)])
      in if currentReadBufferPosition s1 > currentReadBufferAmount s1
         then
           (case discard io (device s1)
                   (currentReadBufferPosition s1 - currentReadBufferAmount s1) of
              (Some i, d') \<Rightarrow>
                (let s2 = s1\<lparr>device := d'\<rparr>
                 in (False,
                     ev1 @ [readProgress (totalAdvancements s2 - i) (IoDeviceImpl_size io s2)],
                     s2))
            | (None, d') \<Rightarrow>
                (True, ev1,
                 s1\<lparr>device := d',
                    currentReadBufferPosition := 0,
                    currentReadBufferAmount := 0\<rparr>))
         else (True, ev1, s1))"

definition IoDeviceImpl_reset ::
  "'d QIODevice \<Rightarrow> 'd IoDeviceImpl \<Rightarrow> bool \<times> 'd IoDeviceImpl" where
  "IoDeviceImpl_reset io s =
     (case (if initialPosition s = 0 then dev_reset io (device s)
            else dev_seek io (device s) (initialPosition s)) of
        (True, d') \<Rightarrow>
          (True, s\<lparr>device := d',
                   eof := False,
                   totalAdvancements := 0,
                   currentReadBuffer := None,
                   currentReadBufferAmount := 0,
                   currentReadBufferPosition := 0\<rparr>)
      | (False, d') \<Rightarrow> (False, s\<lparr>device := d'\<rparr>))"

text \<open>The storage that a pointer returned by \<open>readPointer\<close> points into.\<close>

definition IoDeviceImpl_mem :: "'d IoDeviceImpl \<Rightarrow> string" where
  "IoDeviceImpl_mem s = (case currentReadBuffer s of None \<Rightarrow> [] | Some buf \<Rightarrow> buf)"





subsection \<open>QByteDeviceWrappingIoDevice\<close>

text \<open>
  The wrapped \<open>QNonContiguousByteDevice *\<close> with its virtual member functions, over the
  state \<open>'c\<close> of whichever cursor it is; \<open>bd_mem\<close> is the storage its pointers point
  into.
\<close>

record 'c QNonContiguousByteDevice =
  bd_readPointer :: "'c \<Rightarrow> int \<Rightarrow> (ptr \<times> int) \<times> event list \<times> 'c"
  bd_advanceReadPointer :: "'c \<Rightarrow> int \<Rightarrow> bool \<times> event list \<times> 'c"
  bd_atEnd :: "'c \<Rightarrow> bool"
  bd_reset :: "'c \<Rightarrow> bool \<times> 'c"
  bd_size :: "'c \<Rightarrow> int"
  bd_mem :: "'c \<Rightarrow> string"

definition ByteArrayImpl_vtable :: "ByteArrayImpl QNonContiguousByteDevice" where
  "ByteArrayImpl_vtable =
     \<lparr>bd_readPointer = (\<lambda>s n. (ByteArrayImpl_readPointer s n, [], s)),
      bd_advanceReadPointer = ByteArrayImpl_advanceReadPointer,
      bd_atEnd = ByteArrayImpl_atEnd,
      bd_reset = ByteArrayImpl_reset,
      bd_size = ByteArrayImpl_size,
      bd_mem = byteArray\<rparr>"

definition IoDeviceImpl_vtable :: "'d QIODevice \<Rightarrow> 'd IoDeviceImpl QNonContiguousByteDevice" where
  "IoDeviceImpl_vtable io =
     \<lparr>bd_readPointer = IoDeviceImpl_readPointer io,
      bd_advanceReadPointer = IoDeviceImpl_advanceReadPointer io,
      bd_atEnd = IoDeviceImpl_atEnd,
      bd_reset = IoDeviceImpl_reset io,
      bd_size = IoDeviceImpl_size io,
      bd_mem = IoDeviceImpl_mem\<rparr>"

text \<open>\<open>memcpy(dst, src, n)\<close> with \<open>src\<close> the \<open>n\<close> bytes behind a pointer.\<close>

definition memcpy :: "string \<Rightarrow> string \<Rightarrow> string" where
  "memcpy dst src = stored src dst"

definition Wrapping_isSequential :: "'c QNonContiguousByteDevice \<Rightarrow> 'c \<Rightarrow> bool" where
  "Wrapping_isSequential bd c = (bd_size bd c = -1)"

definition Wrapping_atEnd :: "'c QNonContiguousByteDevice \<Rightarrow> 'c \<Rightarrow> bool" where
  "Wrapping_atEnd bd c = bd_atEnd bd c"

definition Wrapping_reset :: "'c QNonContiguousByteDevice \<Rightarrow> 'c \<Rightarrow> bool \<times> 'c" where
  "Wrapping_reset bd c = bd_reset bd c"

definition Wrapping_size :: "'c QNonContiguousByteDevice \<Rightarrow> 'c \<Rightarrow> int" where
  "Wrapping_size bd c = (if Wrapping_isSequential bd c then 0 else bd_size bd c)"

text \<open>
  \<open>readData(data, maxSize)\<close>: the result, the caller's buffer afterwards, the events of
  the wrapped cursor and the wrapped cursor afterwards.
\<close>

definition Wrapping_readData ::
  "'c QNonContiguousByteDevice \<Rightarrow> 'c \<Rightarrow> string \<Rightarrow> int \<Rightarrow> int \<times> string \<times> event list \<times> 'c" where
  "Wrapping_readData bd c data maxSize =
     (case bd_readPointer bd c maxSize of
        ((readPointer, len), ev1, c1) \<Rightarrow>
          if len = -1 then (-1, data, ev1, c1)
          else
            (let data' = memcpy data (deref (bd_mem bd c1) readPointer len)
             in case bd_advanceReadPointer bd c1 len of
                  (ok, ev2, c2) \<Rightarrow> (len, data', ev1 @ ev2, c2)))"

definition Wrapping_writeData :: "string \<Rightarrow> int \<Rightarrow> int" where
  "Wrapping_writeData data maxSize = -1"

subsection \<open>A seekable source with fixed content\<close>

text \<open>
  Modelled from the spec: the streaming source behind the cursor (a \<open>QIODevice\<close>, whose
  code is not in this file). The end-to-end scenario reads the 10 bytes
  \<open>HELLOWORLD\<close> through the cursor and rewinds; the source below is the plain
  random-access device that scenario needs: fixed content and a read position, a read
  that returns the next bytes (\<open>0\<close> at the end, \<open>-1\<close> for a negative length), and a
  seek to any position inside the content. It is never sequential.
\<close>

record mem_device =
  md_content :: string
  md_pos :: int

definition mem_read :: "mem_device \<Rightarrow> int \<Rightarrow> int \<times> string \<times> mem_device" where
  "mem_read d n =
     (if n < 0 then (-1, [], d)
      else (let bytes = take (nat n) (drop (nat (md_pos d)) (md_content d))
            in (int (length bytes), bytes, d\<lparr>md_pos := md_pos d + int (length bytes)\<rparr>)))"

definition mem_getChar :: "mem_device \<Rightarrow> bool \<times> mem_device" where
  "mem_getChar d =
     (if md_pos d < int (length (md_content d)) then (True, d\<lparr>md_pos := md_pos d + 1\<rparr>)
      else (False, d))"

definition mem_seek :: "mem_device \<Rightarrow> int \<Rightarrow> bool \<times> mem_device" where
  "mem_seek d p =
     (if 0 \<le> p \<and> p \<le> int (length (md_content d)) then (True, d\<lparr>md_pos := p\<rparr>)
      else (False, d))"

definition mem_io :: "mem_device QIODevice" where
  "mem_io =
     \<lparr>dev_read = mem_read,
      dev_getChar = mem_getChar,
      dev_atEnd = (\<lambda>d. md_pos d \<ge> int (length (md_content d))),
      dev_isSequential = (\<lambda>d. False),
      dev_reset = (\<lambda>d. mem_seek d 0),
      dev_seek = mem_seek,
      dev_size = (\<lambda>d. int (length (md_content d))),
      dev_pos = md_pos\<rparr>"

text \<open>The cursor of the scenario: over the content from its start, with chunk capacity \<open>cap\<close>.\<close>

definition mem_cursor :: "string \<Rightarrow> int \<Rightarrow> mem_device IoDeviceImpl" where
  "mem_cursor bytes cap =
     (IoDeviceImpl_new mem_io \<lparr>md_content = bytes, md_pos = 0\<rparr>)
       \<lparr>currentReadBufferSize := cap\<rparr>"

text \<open>
  The consumer's loop of the scenario: \<open>readPointer(-1)\<close>, take the bytes offered,
  \<open>advanceReadPointer(len)\<close>, until \<open>readPointer\<close> answers \<open>-1\<close> with \<open>atEnd()\<close>
  true. The first argument bounds the number of rounds; \<open>None\<close> means the bound was
  reached, or \<open>readPointer\<close> answered \<open>-1\<close> before the end, or an advance failed.
\<close>

fun drain ::
  "'d QIODevice \<Rightarrow> nat \<Rightarrow> 'd IoDeviceImpl \<Rightarrow> (string \<times> 'd IoDeviceImpl) option" where
  "drain io 0 s = None"
| "drain io (Suc k) s =
     (case IoDeviceImpl_readPointer io s (-1) of
        ((p, len), ev1, s1) \<Rightarrow>
          if len = -1 then (if IoDeviceImpl_atEnd s1 then Some ([], s1) else None)
          else
            (case IoDeviceImpl_advanceReadPointer io s1 len of
               (ok, ev2, s2) \<Rightarrow>
                 if ok
                 then map_option (\<lambda>(bytes, t). (deref (IoDeviceImpl_mem s1) p len @ bytes, t))
                        (drain io k s2)
                 else None))"

text \<open>One round of the scenario: what \<open>readPointer(n)\<close> returns, as length and bytes.\<close>

definition offered :: "'d QIODevice \<Rightarrow> 'd IoDeviceImpl \<Rightarrow> int \<Rightarrow> int \<times> string" where
  "offered io s n =
     (case IoDeviceImpl_readPointer io s n of
        ((p, len), ev, s1) \<Rightarrow> (len, deref (IoDeviceImpl_mem s1) p len))"

definition after_read :: "'d QIODevice \<Rightarrow> 'd IoDeviceImpl \<Rightarrow> int \<Rightarrow> 'd IoDeviceImpl" where
  "after_read io s n = snd (snd (IoDeviceImpl_readPointer io s n))"

definition after_advance :: "'d QIODevice \<Rightarrow> 'd IoDeviceImpl \<Rightarrow> int \<Rightarrow> 'd IoDeviceImpl" where
  "after_advance io s n = snd (snd (IoDeviceImpl_advanceReadPointer io s n))"

text \<open>
  The bytes that the discard loop of \<open>advanceReadPointer\<close> is meant to skip, read one
  at a time: \<open>getChars io k d\<close> calls \<open>getChar\<close> up to \<open>k\<close> times, stops at the
  first call that fails, and returns how many calls succeeded and the device afterwards.
\<close>

fun getChars :: "'d QIODevice \<Rightarrow> nat \<Rightarrow> 'd \<Rightarrow> nat \<times> 'd" where
  "getChars io 0 d = (0, d)"
| "getChars io (Suc k) d =
     (case dev_getChar io d of
        (False, d') \<Rightarrow> (0, d')
      | (True, d') \<Rightarrow> (case getChars io k d' of (n, d'') \<Rightarrow> (Suc n, d'')))"

text \<open>
  A sequential device whose read channel has been closed: every read fails with \<open>-1\<close>
  and it cannot be rewound. It serves as a concrete input of unknown size.
\<close>

definition closed_io :: "unit QIODevice" where
  "closed_io =
     \<lparr>dev_read = (\<lambda>d n. (-1, [], d)),
      dev_getChar = (\<lambda>d. (False, d)),
      dev_atEnd = (\<lambda>d. True),
      dev_isSequential = (\<lambda>d. True),
      dev_reset = (\<lambda>d. (False, d)),
      dev_seek = (\<lambda>d p. (False, d)),
      dev_size = (\<lambda>d. 0),
      dev_pos = (\<lambda>d. 0)\<rparr>"


subsection \<open>Invariants\<close>

text \<open>The byte-array cursor: the position lies inside the array.\<close>

definition ByteArrayImpl_inv :: "ByteArrayImpl \<Rightarrow> bool" where
  "ByteArrayImpl_inv s = (0 \<le> currentPosition s \<and> currentPosition s \<le> ByteArrayImpl_size s)"


section \<open>Properties\<close>

subsection \<open>The byte-array cursor\<close>

text \<open>
  C8: for the byte-array cursor, when not at the end, \<open>readPointer(maxLen)\<close> returns
  the pointer \<open>base + position\<close> with \<open>len = min(maxLen, size - position)\<close>, or
  \<open>size - position\<close> when \<open>maxLen\<close> is \<open>-1\<close>; \<open>atEnd()\<close> is \<open>position \<ge> size\<close>;
  \<open>advance(amount)\<close> adds \<open>amount\<close> to the position and returns true; \<open>reset()\<close>
  sets the position to 0 and returns true.
\<close>

theorem C8_ByteArrayImpl_operations:
  "(\<not> ByteArrayImpl_atEnd s \<longrightarrow>
      ByteArrayImpl_readPointer s maxLen =
        (Ptr (currentPosition s),
         if maxLen = -1 then ByteArrayImpl_size s - currentPosition s
         else min maxLen (ByteArrayImpl_size s - currentPosition s)))
   \<and> ByteArrayImpl_atEnd s = (currentPosition s \<ge> ByteArrayImpl_size s)
   \<and> fst (ByteArrayImpl_advanceReadPointer s amount) = True
   \<and> currentPosition (snd (snd (ByteArrayImpl_advanceReadPointer s amount)))
       = currentPosition s + amount
   \<and> byteArray (snd (snd (ByteArrayImpl_advanceReadPointer s amount))) = byteArray s
   \<and> fst (ByteArrayImpl_reset s) = True
   \<and> currentPosition (snd (ByteArrayImpl_reset s)) = 0
   \<and> byteArray (snd (ByteArrayImpl_reset s)) = byteArray s"
  by (simp add: ByteArrayImpl_readPointer_def ByteArrayImpl_atEnd_def
      ByteArrayImpl_advanceReadPointer_def ByteArrayImpl_reset_def Let_def)

theorem C8_ByteArrayImpl_operations_witness:
  "\<not> ByteArrayImpl_atEnd (ByteArrayImpl_new ''abc'')
   \<and> ByteArrayImpl_readPointer (ByteArrayImpl_new ''abc'') 2 = (Ptr 0, 2)
   \<and> ByteArrayImpl_readPointer (ByteArrayImpl_new ''abc'') (-1) = (Ptr 0, 3)"
proof -
  have h: "\<not> ByteArrayImpl_atEnd (ByteArrayImpl_new ''abc'')"
    by (simp add: ByteArrayImpl_atEnd_def ByteArrayImpl_new_def ByteArrayImpl_size_def)
  show ?thesis
    using h C8_ByteArrayImpl_operations [of "ByteArrayImpl_new ''abc''" 2 0]
      C8_ByteArrayImpl_operations [of "ByteArrayImpl_new ''abc''" "-1" 0]
    by (simp add: ByteArrayImpl_new_def ByteArrayImpl_size_def)
qed

subsection \<open>The cursor over a QIODevice: single operations\<close>

lemma readPointer_keeps_buffer:
  "\<not> eof s \<Longrightarrow> currentReadBuffer (snd (snd (IoDeviceImpl_readPointer io s n))) \<noteq> None"
  by (auto simp: IoDeviceImpl_readPointer_def Let_def split: prod.splits)

lemma discard_pos: "discard io d i = (Some j, d') \<Longrightarrow> 0 < j"
proof (induction io d i rule: discard.induct)
  case (1 io d i)
  then show ?case
    by (subst (asm) (2) discard.simps) (auto split: if_splits prod.splits bool.splits)
qed

lemma getChars_le: "fst (getChars io k d) \<le> k"
proof (induction k arbitrary: d)
  case 0
  then show ?case by simp
next
  case (Suc k)
  obtain b d1 where g: "dev_getChar io d = (b, d1)" by (cases "dev_getChar io d")
  obtain n d2 where h: "getChars io k d1 = (n, d2)" by (cases "getChars io k d1")
  from Suc [of d1] h have "n \<le> k" by simp
  with g h show ?case by (cases b) simp_all
qed

text \<open>The loop of the source and the count of successful \<open>getChar\<close> calls agree.\<close>

lemma discard_getChars:
  "discard io d (int k) =
     (case getChars io k d of
        (n, d') \<Rightarrow> (if n < k then Some (int (k - n)) else None, d'))"
proof (induction k arbitrary: d)
  case 0
  then show ?case by (simp add: discard.simps)
next
  case (Suc k)
  obtain b d1 where g: "dev_getChar io d = (b, d1)" by (cases "dev_getChar io d")
  show ?case
  proof (cases b)
    case False
    with g show ?thesis by (subst discard.simps) simp
  next
    case True
    have "int (Suc k) - 1 = int k" by simp
    with True g Suc [of d1] show ?thesis
      by (subst discard.simps) (auto split: prod.splits)
  qed
qed

text \<open>
  C2: when \<open>advance(amount)\<close> goes beyond the buffered bytes, the excess
  \<open>k = position + amount - filled\<close> bytes are discarded by \<open>getChar\<close> calls on the
  device. If the device gives out after \<open>n < k\<close> bytes, advance returns false and the
  last progress notification counts only what was consumed: the total before the call,
  the bytes that were buffered, and the \<open>n\<close> bytes discarded. If all \<open>k\<close> bytes are
  discarded, advance returns true and the chunk is drained: consumed and filled are 0.
\<close>

theorem C2_advance_overshoot:
  assumes over: "currentReadBufferPosition s + amount > currentReadBufferAmount s"
    and k: "k = nat (currentReadBufferPosition s + amount - currentReadBufferAmount s)"
    and g: "getChars io k (device s) = (n, d')"
    and r: "IoDeviceImpl_advanceReadPointer io s amount = (ok, evs, s')"
  shows "device s' = d'
     \<and> (n < k \<longrightarrow>
          \<not> ok
          \<and> last evs =
              readProgress
                (totalAdvancements s
                   + (currentReadBufferAmount s - currentReadBufferPosition s) + int n)
                (IoDeviceImpl_size io s'))
     \<and> (n = k \<longrightarrow>
          ok \<and> currentReadBufferPosition s' = 0 \<and> currentReadBufferAmount s' = 0)"
proof -
  have ik: "currentReadBufferPosition s + amount - currentReadBufferAmount s = int k"
    using over k by simp
  have nk: "n \<le> k" using getChars_le [of io k "device s"] g by simp
  show ?thesis
  proof (cases "n < k")
    case True
    then have "discard io (device s) (int k) = (Some (int (k - n)), d')"
      by (simp add: discard_getChars g)
    with over ik r True show ?thesis
      by (auto simp: IoDeviceImpl_advanceReadPointer_def Let_def)
  next
    case False
    with nk have e: "n = k" by simp
    then have "discard io (device s) (int k) = (None, d')"
      by (simp add: discard_getChars g)
    with over ik r e show ?thesis
      by (auto simp: IoDeviceImpl_advanceReadPointer_def Let_def)
  qed
qed

theorem C2_advance_overshoot_witness:
  "currentReadBufferPosition (after_read mem_io (mem_cursor ''HELLOWORLD'' 4) (-1)) + 7
     > currentReadBufferAmount (after_read mem_io (mem_cursor ''HELLOWORLD'' 4) (-1))
   \<and> getChars mem_io 3 (device (after_read mem_io (mem_cursor ''HELLOWORLD'' 4) (-1)))
       = (3, \<lparr>md_content = ''HELLOWORLD'', md_pos = 7\<rparr>)
   \<and> fst (IoDeviceImpl_advanceReadPointer mem_io
            (after_read mem_io (mem_cursor ''HELLOWORLD'' 4) (-1)) 7)
   \<and> currentReadBufferAmount
       (after_advance mem_io (after_read mem_io (mem_cursor ''HELLOWORLD'' 4) (-1)) 7) = 0
   \<and> currentReadBufferPosition
       (after_advance mem_io (after_read mem_io (mem_cursor ''HELLOWORLD'' 4) (-1)) 7) = 0
   \<and> device (after_advance mem_io (after_read mem_io (mem_cursor ''HELLOWORLD'' 4) (-1)) 7)
       = \<lparr>md_content = ''HELLOWORLD'', md_pos = 7\<rparr>
   \<and> currentReadBufferPosition (mem_cursor ''HELLOWORLD'' 4) + 12
       > currentReadBufferAmount (mem_cursor ''HELLOWORLD'' 4)
   \<and> getChars mem_io 12 (device (mem_cursor ''HELLOWORLD'' 4))
       = (10, \<lparr>md_content = ''HELLOWORLD'', md_pos = 10\<rparr>)
   \<and> \<not> fst (IoDeviceImpl_advanceReadPointer mem_io (mem_cursor ''HELLOWORLD'' 4) 12)
   \<and> last (fst (snd (IoDeviceImpl_advanceReadPointer mem_io (mem_cursor ''HELLOWORLD'' 4) 12)))
       = readProgress 10 10"
proof -
  let ?s0 = "mem_cursor ''HELLOWORLD'' 4"
  let ?s1 = "after_read mem_io ?s0 (-1)"
  have a1: "currentReadBufferPosition ?s1 + 7 > currentReadBufferAmount ?s1"
    by code_simp
  have a2: "(3::nat) = nat (currentReadBufferPosition ?s1 + 7 - currentReadBufferAmount ?s1)"
    by code_simp
  have a3: "getChars mem_io 3 (device ?s1) = (3, \<lparr>md_content = ''HELLOWORLD'', md_pos = 7\<rparr>)"
    by code_simp
  have a4: "IoDeviceImpl_advanceReadPointer mem_io ?s1 7 =
     (fst (IoDeviceImpl_advanceReadPointer mem_io ?s1 7),
      fst (snd (IoDeviceImpl_advanceReadPointer mem_io ?s1 7)),
      after_advance mem_io ?s1 7)"
    by (simp add: after_advance_def)
  have b1: "currentReadBufferPosition ?s0 + 12 > currentReadBufferAmount ?s0"
    by code_simp
  have b2: "(12::nat) = nat (currentReadBufferPosition ?s0 + 12 - currentReadBufferAmount ?s0)"
    by code_simp
  have b3: "getChars mem_io 12 (device ?s0) = (10, \<lparr>md_content = ''HELLOWORLD'', md_pos = 10\<rparr>)"
    by code_simp
  have b4: "IoDeviceImpl_advanceReadPointer mem_io ?s0 12 =
     (fst (IoDeviceImpl_advanceReadPointer mem_io ?s0 12),
      fst (snd (IoDeviceImpl_advanceReadPointer mem_io ?s0 12)),
      after_advance mem_io ?s0 12)"
    by (simp add: after_advance_def)
  have sz: "IoDeviceImpl_size mem_io (after_advance mem_io ?s0 12) = 10"
    by code_simp
  have t0: "totalAdvancements ?s0 = 0" "currentReadBufferAmount ?s0 = 0"
    "currentReadBufferPosition ?s0 = 0"
    by (simp_all add: mem_cursor_def IoDeviceImpl_new_def)
  show ?thesis
    using C2_advance_overshoot [OF a1 a2 a3 a4] C2_advance_overshoot [OF b1 b2 b3 b4]
      a1 a3 b1 b3
    by (simp add: sz t0)
qed

text \<open>
  C10: when \<open>advance(amount)\<close> fails, nothing is rolled back: \<open>totalAdvancements\<close>
  has grown by the whole \<open>amount\<close>, the consumed counter has grown by the whole
  \<open>amount\<close> and stays above the filled counter, \<open>eof\<close> is as it was, and the last
  progress notification (what was really consumed) is below \<open>totalAdvancements\<close>.
\<close>

theorem C10_failed_advance_not_rolled_back:
  assumes "fst (IoDeviceImpl_advanceReadPointer io s amount) = False"
  shows "totalAdvancements (snd (snd (IoDeviceImpl_advanceReadPointer io s amount)))
           = totalAdvancements s + amount
     \<and> currentReadBufferPosition (snd (snd (IoDeviceImpl_advanceReadPointer io s amount)))
           = currentReadBufferPosition s + amount
     \<and> currentReadBufferAmount (snd (snd (IoDeviceImpl_advanceReadPointer io s amount)))
           = currentReadBufferAmount s
     \<and> currentReadBufferPosition (snd (snd (IoDeviceImpl_advanceReadPointer io s amount)))
           > currentReadBufferAmount (snd (snd (IoDeviceImpl_advanceReadPointer io s amount)))
     \<and> eof (snd (snd (IoDeviceImpl_advanceReadPointer io s amount))) = eof s
     \<and> current (last (fst (snd (IoDeviceImpl_advanceReadPointer io s amount))))
           < totalAdvancements (snd (snd (IoDeviceImpl_advanceReadPointer io s amount)))"
  using assms
  by (auto simp: IoDeviceImpl_advanceReadPointer_def Let_def
      split: if_splits prod.splits option.splits dest: discard_pos)

theorem C10_failed_advance_not_rolled_back_witness:
  "fst (IoDeviceImpl_advanceReadPointer mem_io (mem_cursor ''HELLOWORLD'' 4) 12) = False
   \<and> totalAdvancements
       (snd (snd (IoDeviceImpl_advanceReadPointer mem_io (mem_cursor ''HELLOWORLD'' 4) 12))) = 12
   \<and> fst (snd (IoDeviceImpl_advanceReadPointer mem_io (mem_cursor ''HELLOWORLD'' 4) 12))
       = [readProgress 12 10, readProgress 10 10]"
proof -
  have e: "IoDeviceImpl_advanceReadPointer mem_io (mem_cursor ''HELLOWORLD'' 4) 12
    = (False, [readProgress 12 10, readProgress 10 10],
       (mem_cursor ''HELLOWORLD'' 4)
         \<lparr>device := \<lparr>md_content = ''HELLOWORLD'', md_pos = 10\<rparr>,
          totalAdvancements := 12, currentReadBufferPosition := 12\<rparr>)"
    by code_simp
  have h: "fst (IoDeviceImpl_advanceReadPointer mem_io (mem_cursor ''HELLOWORLD'' 4) 12) = False"
    by (simp add: e)
  show ?thesis
    using h C10_failed_advance_not_rolled_back [OF h] by (simp add: e)
qed

text \<open>
  C5: in \<open>readPointer\<close>, when the cursor is not at its end, nothing is buffered and
  the read of the device returns \<open>-1\<close>, or returns 0 with the device at its end and not
  sequential, then the result is \<open>(nullptr, -1)\<close>, \<open>eof\<close> is set, and a progress
  notification is emitted exactly when \<open>size()\<close> is \<open>-1\<close>; its current and its total
  are both \<open>totalAdvancements\<close>.
\<close>

theorem C5_readPointer_exhausted:
  assumes "\<not> eof s"
    and "currentReadBufferAmount s - currentReadBufferPosition s \<le> 0"
    and "dev_read io (device s)
           (min (if maxLen = -1 then currentReadBufferSize s else maxLen)
                (currentReadBufferSize s)) = (haveRead, bytes, d')"
    and "haveRead = -1 \<or> (haveRead = 0 \<and> dev_atEnd io d' \<and> \<not> dev_isSequential io d')"
  shows "fst (IoDeviceImpl_readPointer io s maxLen) = (nullptr, -1)
     \<and> eof (snd (snd (IoDeviceImpl_readPointer io s maxLen)))
     \<and> totalAdvancements (snd (snd (IoDeviceImpl_readPointer io s maxLen))) = totalAdvancements s
     \<and> fst (snd (IoDeviceImpl_readPointer io s maxLen)) =
         (if IoDeviceImpl_size io (snd (snd (IoDeviceImpl_readPointer io s maxLen))) = -1
          then [readProgress (totalAdvancements s) (totalAdvancements s)]
          else [])"
  using assms
  by (auto simp: IoDeviceImpl_readPointer_def Let_def IoDeviceImpl_size_def)

theorem C5_readPointer_exhausted_witness:
  "\<not> eof (IoDeviceImpl_new closed_io ())
   \<and> fst (IoDeviceImpl_readPointer closed_io (IoDeviceImpl_new closed_io ()) (-1)) = (nullptr, -1)
   \<and> eof (snd (snd (IoDeviceImpl_readPointer closed_io (IoDeviceImpl_new closed_io ()) (-1))))
   \<and> fst (snd (IoDeviceImpl_readPointer closed_io (IoDeviceImpl_new closed_io ()) (-1)))
       = [readProgress 0 0]"
proof -
  let ?s = "IoDeviceImpl_new closed_io ()"
  have h1: "\<not> eof ?s" by (simp add: IoDeviceImpl_new_def)
  have h2: "currentReadBufferAmount ?s - currentReadBufferPosition ?s \<le> 0"
    by (simp add: IoDeviceImpl_new_def)
  have h3: "dev_read closed_io (device ?s)
           (min (if (-1::int) = -1 then currentReadBufferSize ?s else -1)
                (currentReadBufferSize ?s)) = (-1, [], ())"
    by (simp add: closed_io_def)
  have h4: "(-1::int) = -1 \<or> ((-1::int) = 0 \<and> dev_atEnd closed_io () \<and> \<not> dev_isSequential closed_io ())"
    by simp
  have sz: "IoDeviceImpl_size closed_io t = -1" for t
    by (simp add: IoDeviceImpl_size_def closed_io_def)
  show ?thesis
    using h1 C5_readPointer_exhausted [OF h1 h2 h3 h4]
    by (simp add: sz) (simp add: IoDeviceImpl_new_def)
qed

text \<open>
  C6: \<open>reset()\<close> rewinds the device to the initial position (\<open>reset\<close> of the device
  when that is 0, \<open>seek\<close> otherwise). When that succeeds, reset returns true, \<open>eof\<close> is
  false, \<open>totalAdvancements\<close> is 0, the read buffer is freed, consumed and filled are
  0, and the next \<open>readPointer\<close> allocates the buffer again. When it fails, reset returns
  false and no field of the cursor changes (the device is as the failed seek left it).
\<close>

theorem C6_reset:
  "(case (if initialPosition s = 0 then dev_reset io (device s)
          else dev_seek io (device s) (initialPosition s)) of
      (ok, d') \<Rightarrow>
        (ok \<longrightarrow>
           fst (IoDeviceImpl_reset io s) = True
           \<and> \<not> eof (snd (IoDeviceImpl_reset io s))
           \<and> totalAdvancements (snd (IoDeviceImpl_reset io s)) = 0
           \<and> currentReadBuffer (snd (IoDeviceImpl_reset io s)) = None
           \<and> currentReadBufferAmount (snd (IoDeviceImpl_reset io s)) = 0
           \<and> currentReadBufferPosition (snd (IoDeviceImpl_reset io s)) = 0
           \<and> currentReadBuffer
                (snd (snd (IoDeviceImpl_readPointer io (snd (IoDeviceImpl_reset io s)) n)))
               \<noteq> None)
        \<and> (\<not> ok \<longrightarrow>
             fst (IoDeviceImpl_reset io s) = False
             \<and> snd (IoDeviceImpl_reset io s) = s\<lparr>device := d'\<rparr>))"
proof -
  obtain ok d' where r: "(if initialPosition s = 0 then dev_reset io (device s)
          else dev_seek io (device s) (initialPosition s)) = (ok, d')"
    by (cases "if initialPosition s = 0 then dev_reset io (device s)
          else dev_seek io (device s) (initialPosition s)")
  show ?thesis
  proof (cases ok)
    case True
    with r have e: "IoDeviceImpl_reset io s =
      (True, s\<lparr>device := d', eof := False, totalAdvancements := 0,
                currentReadBuffer := None, currentReadBufferAmount := 0,
                currentReadBufferPosition := 0\<rparr>)"
      by (simp add: IoDeviceImpl_reset_def)
    have "\<not> eof (snd (IoDeviceImpl_reset io s))" by (simp add: e)
    then have "currentReadBuffer
                (snd (snd (IoDeviceImpl_readPointer io (snd (IoDeviceImpl_reset io s)) n)))
               \<noteq> None"
      by (rule readPointer_keeps_buffer)
    with True r e show ?thesis by simp
  next
    case False
    with r have "IoDeviceImpl_reset io s = (False, s\<lparr>device := d'\<rparr>)"
      by (simp add: IoDeviceImpl_reset_def)
    with False r show ?thesis by simp
  qed
qed

theorem C6_reset_witness:
  "fst (IoDeviceImpl_reset mem_io (after_advance mem_io (mem_cursor ''HELLOWORLD'' 4) 3)) = True
   \<and> totalAdvancements
       (snd (IoDeviceImpl_reset mem_io (after_advance mem_io (mem_cursor ''HELLOWORLD'' 4) 3))) = 0
   \<and> fst (IoDeviceImpl_reset closed_io (IoDeviceImpl_new closed_io ())) = False
   \<and> snd (IoDeviceImpl_reset closed_io (IoDeviceImpl_new closed_io ()))
       = IoDeviceImpl_new closed_io ()"
proof -
  let ?s = "after_advance mem_io (mem_cursor ''HELLOWORLD'' 4) 3"
  let ?t = "IoDeviceImpl_new closed_io ()"
  have i: "initialPosition ?s = 0"
    by (simp add: after_advance_def IoDeviceImpl_advanceReadPointer_def Let_def mem_cursor_def
        IoDeviceImpl_new_def mem_io_def split: prod.splits option.splits)
  have a: "dev_reset mem_io (device ?s) = (True, (device ?s)\<lparr>md_pos := 0\<rparr>)"
    by (simp add: mem_io_def mem_seek_def)
  have b: "(if initialPosition ?t = 0 then dev_reset closed_io (device ?t)
            else dev_seek closed_io (device ?t) (initialPosition ?t)) = (False, ())"
    by (simp add: closed_io_def)
  show ?thesis
    using C6_reset [where s = ?s and io = mem_io and n = 0]
      C6_reset [where s = ?t and io = closed_io and n = 0]
    by (simp add: i a b)
qed

subsection \<open>Runs of the byte-array cursor\<close>

lemma ByteArrayImpl_run_append:
  "ByteArrayImpl_run s (xs @ ys) =
     (case ByteArrayImpl_run s xs of (e1, s1) \<Rightarrow>
        (case ByteArrayImpl_run s1 ys of (e2, s2) \<Rightarrow> (e1 @ e2, s2)))"
  by (induction xs arbitrary: s) (auto split: prod.splits)

lemma ByteArrayImpl_within_append:
  "ByteArrayImpl_within s (xs @ ys) =
     (ByteArrayImpl_within s xs \<and> ByteArrayImpl_within (snd (ByteArrayImpl_run s xs)) ys)"
  by (induction xs arbitrary: s) (auto split: prod.splits)

lemma ByteArrayImpl_call_inv:
  assumes "ByteArrayImpl_inv s"
    and "case c of AdvanceReadPointer n \<Rightarrow> 0 \<le> n \<and> n \<le> ByteArrayImpl_size s - currentPosition s
         | _ \<Rightarrow> True"
  shows "ByteArrayImpl_inv (snd (ByteArrayImpl_call s c))"
  using assms
  by (cases c)
     (auto simp: ByteArrayImpl_inv_def ByteArrayImpl_advanceReadPointer_def
        ByteArrayImpl_reset_def ByteArrayImpl_size_def Let_def)

lemma ByteArrayImpl_run_inv:
  "ByteArrayImpl_inv s \<Longrightarrow> ByteArrayImpl_within s cs
     \<Longrightarrow> ByteArrayImpl_inv (snd (ByteArrayImpl_run s cs))"
proof (induction cs arbitrary: s)
  case Nil
  then show ?case by simp
next
  case (Cons c cs)
  from Cons.prems have "ByteArrayImpl_inv (snd (ByteArrayImpl_call s c))"
    by (intro ByteArrayImpl_call_inv) simp_all
  moreover from Cons.prems have "ByteArrayImpl_within (snd (ByteArrayImpl_call s c)) cs"
    by simp
  ultimately have "ByteArrayImpl_inv (snd (ByteArrayImpl_run (snd (ByteArrayImpl_call s c)) cs))"
    by (rule Cons.IH)
  then show ?case by (simp add: case_prod_beta)
qed

lemma ByteArrayImpl_call_mono:
  assumes "c \<noteq> Reset"
    and "case c of AdvanceReadPointer n \<Rightarrow> 0 \<le> n \<and> n \<le> ByteArrayImpl_size s - currentPosition s
         | _ \<Rightarrow> True"
    and "ByteArrayImpl_call s c = (ev, s')"
  shows "currentPosition s \<le> currentPosition s' \<and> ByteArrayImpl_size s' = ByteArrayImpl_size s
     \<and> (\<forall>e \<in> set ev. current e = currentPosition s')"
  using assms
  by (cases c)
     (auto simp: ByteArrayImpl_advanceReadPointer_def ByteArrayImpl_size_def Let_def)

lemma ByteArrayImpl_run_mono:
  "ByteArrayImpl_within s cs \<Longrightarrow> Reset \<notin> set cs \<Longrightarrow> ByteArrayImpl_run s cs = (evs, s')
     \<Longrightarrow> currentPosition s \<le> currentPosition s' \<and> ByteArrayImpl_size s' = ByteArrayImpl_size s
       \<and> sorted (map current evs) \<and> (\<forall>e \<in> set evs. currentPosition s \<le> current e
       \<and> current e \<le> currentPosition s')"
proof (induction cs arbitrary: s evs s')
  case Nil
  then show ?case by simp
next
  case (Cons c cs)
  obtain ev s1 where c: "ByteArrayImpl_call s c = (ev, s1)"
    by (cases "ByteArrayImpl_call s c")
  obtain evs1 s2 where r: "ByteArrayImpl_run s1 cs = (evs1, s2)"
    by (cases "ByteArrayImpl_run s1 cs")
  from Cons.prems c r have e: "evs = ev @ evs1" "s' = s2" by simp_all
  from Cons.prems have "c \<noteq> Reset" by auto
  with Cons.prems c
  have 1: "currentPosition s \<le> currentPosition s1" "ByteArrayImpl_size s1 = ByteArrayImpl_size s"
    "\<forall>e \<in> set ev. current e = currentPosition s1"
    using ByteArrayImpl_call_mono [of c s ev s1] by simp_all
  from Cons.prems c have "ByteArrayImpl_within s1 cs" "Reset \<notin> set cs" by simp_all
  from Cons.IH [OF this r]
  have 2: "currentPosition s1 \<le> currentPosition s2" "ByteArrayImpl_size s2 = ByteArrayImpl_size s1"
    "sorted (map current evs1)"
    "\<forall>e \<in> set evs1. currentPosition s1 \<le> current e \<and> current e \<le> currentPosition s2"
    by simp_all
  have "sorted (map current ev)"
    using 1(3) by (induction ev) auto
  with 1 2 have "sorted (map current (ev @ evs1))"
    by (auto simp: sorted_append)
  with 1 2 e show ?case by auto
qed

text \<open>
  C7, as stated, fails: \<open>advanceReadPointer\<close> adds any amount, so on the array
  \<open>abc\<close> (size 3) the single call \<open>advance(5)\<close> leaves the position at 5.
\<close>

theorem C7_ByteArrayImpl_position_counterexample:
  "\<not> (currentPosition (snd (ByteArrayImpl_run (ByteArrayImpl_new ''abc'') [AdvanceReadPointer 5]))
        \<le> ByteArrayImpl_size
            (snd (ByteArrayImpl_run (ByteArrayImpl_new ''abc'') [AdvanceReadPointer 5])))"
  by code_simp

text \<open>
  C7, amended: for the byte-array cursor, in every state reached from construction by
  calls of \<open>readPointer\<close>, \<open>advance\<close>, \<open>atEnd\<close> and \<open>reset\<close> in which every
  advance is by an amount between 0 and \<open>size - position\<close>, \<open>0 \<le> position \<le> size\<close>
  holds, and the position does not decrease over calls that contain no reset.
\<close>

theorem C7_ByteArrayImpl_position:
  assumes "ByteArrayImpl_within (ByteArrayImpl_new ba) (cs1 @ cs2)"
  shows "0 \<le> currentPosition (snd (ByteArrayImpl_run (ByteArrayImpl_new ba) cs1))
     \<and> currentPosition (snd (ByteArrayImpl_run (ByteArrayImpl_new ba) cs1))
         \<le> ByteArrayImpl_size (snd (ByteArrayImpl_run (ByteArrayImpl_new ba) cs1))
     \<and> (Reset \<notin> set cs2 \<longrightarrow>
          currentPosition (snd (ByteArrayImpl_run (ByteArrayImpl_new ba) cs1))
            \<le> currentPosition (snd (ByteArrayImpl_run (ByteArrayImpl_new ba) (cs1 @ cs2))))"
proof -
  let ?s = "ByteArrayImpl_new ba"
  let ?s1 = "snd (ByteArrayImpl_run ?s cs1)"
  have w: "ByteArrayImpl_within ?s cs1" "ByteArrayImpl_within ?s1 cs2"
    using assms by (simp_all add: ByteArrayImpl_within_append)
  have "ByteArrayImpl_inv ?s"
    by (simp add: ByteArrayImpl_inv_def ByteArrayImpl_new_def ByteArrayImpl_size_def)
  then have i: "ByteArrayImpl_inv ?s1" using w(1) by (rule ByteArrayImpl_run_inv)
  have m: "currentPosition ?s1 \<le> currentPosition (snd (ByteArrayImpl_run ?s (cs1 @ cs2)))"
    if "Reset \<notin> set cs2"
  proof -
    have "ByteArrayImpl_run ?s1 cs2
      = (fst (ByteArrayImpl_run ?s1 cs2), snd (ByteArrayImpl_run ?s1 cs2))" by simp
    from ByteArrayImpl_run_mono [OF w(2) that this]
    have "currentPosition ?s1 \<le> currentPosition (snd (ByteArrayImpl_run ?s1 cs2))" by simp
    then show ?thesis by (simp add: ByteArrayImpl_run_append case_prod_beta)
  qed
  from i m show ?thesis by (simp add: ByteArrayImpl_inv_def)
qed

theorem C7_ByteArrayImpl_position_witness:
  "ByteArrayImpl_within (ByteArrayImpl_new ''abc'')
     ([ReadPointer (-1), AdvanceReadPointer 2, AtEnd, Reset, AdvanceReadPointer 1]
      @ [ReadPointer 1, AdvanceReadPointer 2])
   \<and> currentPosition (snd (ByteArrayImpl_run (ByteArrayImpl_new ''abc'')
        [ReadPointer (-1), AdvanceReadPointer 2, AtEnd, Reset, AdvanceReadPointer 1])) = 1
   \<and> currentPosition (snd (ByteArrayImpl_run (ByteArrayImpl_new ''abc'')
        ([ReadPointer (-1), AdvanceReadPointer 2, AtEnd, Reset, AdvanceReadPointer 1]
         @ [ReadPointer 1, AdvanceReadPointer 2]))) = 3"
proof -
  have h: "ByteArrayImpl_within (ByteArrayImpl_new ''abc'')
     ([ReadPointer (-1), AdvanceReadPointer 2, AtEnd, Reset, AdvanceReadPointer 1]
      @ [ReadPointer 1, AdvanceReadPointer 2])"
    by code_simp
  have a: "currentPosition (snd (ByteArrayImpl_run (ByteArrayImpl_new ''abc'')
        [ReadPointer (-1), AdvanceReadPointer 2, AtEnd, Reset, AdvanceReadPointer 1])) = 1"
    by code_simp
  have b: "currentPosition (snd (ByteArrayImpl_run (ByteArrayImpl_new ''abc'')
        ([ReadPointer (-1), AdvanceReadPointer 2, AtEnd, Reset, AdvanceReadPointer 1]
         @ [ReadPointer 1, AdvanceReadPointer 2]))) = 3"
    by code_simp
  show ?thesis
    using h C7_ByteArrayImpl_position [OF h] a b by simp
qed

subsection \<open>Runs of the cursor over a QIODevice\<close>




lemma IoDeviceImpl_size_fields:
  "device t = device s \<Longrightarrow> initialPosition t = initialPosition s
     \<Longrightarrow> IoDeviceImpl_size io t = IoDeviceImpl_size io s"
  by (simp add: IoDeviceImpl_size_def)


















subsection \<open>Progress notifications over runs\<close>













subsection \<open>The wrapping device\<close>

text \<open>
  C9: \<open>readData\<close> takes a pointer and a length from the wrapped cursor's
  \<open>readPointer\<close>; when the length is \<open>-1\<close> it returns \<open>-1\<close> and copies and advances
  nothing; otherwise it copies that many bytes from the pointer to the start of the
  caller's buffer, advances the wrapped cursor by exactly that length and returns it.
  The device is sequential exactly when the wrapped cursor's \<open>size()\<close> is \<open>-1\<close>, and
  \<open>writeData\<close> returns \<open>-1\<close>.
\<close>

theorem C9_wrapping_device:
  assumes "bd_readPointer bd c maxSize = ((p, len), ev1, c1)"
    and "Wrapping_readData bd c data maxSize = (r, data', evs, c2)"
  shows "(len = -1 \<longrightarrow> r = -1 \<and> data' = data \<and> c2 = c1 \<and> evs = ev1)
     \<and> (len \<noteq> -1 \<longrightarrow>
          r = len
          \<and> data' = deref (bd_mem bd c1) p len
                     @ drop (length (deref (bd_mem bd c1) p len)) data
          \<and> c2 = snd (snd (bd_advanceReadPointer bd c1 len))
          \<and> evs = ev1 @ fst (snd (bd_advanceReadPointer bd c1 len)))
     \<and> Wrapping_isSequential bd c = (bd_size bd c = -1)
     \<and> Wrapping_writeData wdata wmax = -1"
  using assms
  by (auto simp: Wrapping_readData_def Wrapping_isSequential_def Wrapping_writeData_def
      memcpy_def stored_def Let_def split: prod.splits)

theorem C9_wrapping_device_witness:
  "bd_readPointer ByteArrayImpl_vtable (ByteArrayImpl_new ''abc'') 2
     = ((Ptr 0, 2), [], ByteArrayImpl_new ''abc'')
   \<and> Wrapping_readData ByteArrayImpl_vtable (ByteArrayImpl_new ''abc'') ''....'' 2
     = (2, ''ab..'', [readProgress 2 3], \<lparr>byteArray = ''abc'', currentPosition = 2\<rparr>)
   \<and> bd_readPointer ByteArrayImpl_vtable \<lparr>byteArray = ''abc'', currentPosition = 3\<rparr> 2
     = ((nullptr, -1), [], \<lparr>byteArray = ''abc'', currentPosition = 3\<rparr>)
   \<and> Wrapping_readData ByteArrayImpl_vtable \<lparr>byteArray = ''abc'', currentPosition = 3\<rparr> ''....'' 2
     = (-1, ''....'', [], \<lparr>byteArray = ''abc'', currentPosition = 3\<rparr>)
   \<and> \<not> Wrapping_isSequential ByteArrayImpl_vtable (ByteArrayImpl_new ''abc'')"
proof -
  let ?c = "ByteArrayImpl_new ''abc''"
  let ?e = "\<lparr>byteArray = ''abc'', currentPosition = 3\<rparr>"
  have a1: "bd_readPointer ByteArrayImpl_vtable ?c 2 = ((Ptr 0, 2), [], ?c)"
    by code_simp
  have a2: "Wrapping_readData ByteArrayImpl_vtable ?c ''....'' 2
    = (fst (Wrapping_readData ByteArrayImpl_vtable ?c ''....'' 2),
       fst (snd (Wrapping_readData ByteArrayImpl_vtable ?c ''....'' 2)),
       fst (snd (snd (Wrapping_readData ByteArrayImpl_vtable ?c ''....'' 2))),
       snd (snd (snd (Wrapping_readData ByteArrayImpl_vtable ?c ''....'' 2))))"
    by simp
  have b1: "bd_readPointer ByteArrayImpl_vtable ?e 2 = ((nullptr, -1), [], ?e)"
    by code_simp
  have b2: "Wrapping_readData ByteArrayImpl_vtable ?e ''....'' 2
    = (fst (Wrapping_readData ByteArrayImpl_vtable ?e ''....'' 2),
       fst (snd (Wrapping_readData ByteArrayImpl_vtable ?e ''....'' 2)),
       fst (snd (snd (Wrapping_readData ByteArrayImpl_vtable ?e ''....'' 2))),
       snd (snd (snd (Wrapping_readData ByteArrayImpl_vtable ?e ''....'' 2))))"
    by simp
  have m: "bd_mem ByteArrayImpl_vtable ?c = ''abc''"
    by code_simp
  have adv: "bd_advanceReadPointer ByteArrayImpl_vtable ?c 2
     = (True, [readProgress 2 3], \<lparr>byteArray = ''abc'', currentPosition = 2\<rparr>)"
    by code_simp
  have sz: "bd_size ByteArrayImpl_vtable ?c = 3"
    by code_simp
  from C9_wrapping_device [OF a1 a2, of "''''" 0] C9_wrapping_device [OF b1 b2, of "''''" 0]
  have "Wrapping_readData ByteArrayImpl_vtable ?c ''....'' 2
     = (2, ''ab..'', [readProgress 2 3], \<lparr>byteArray = ''abc'', currentPosition = 2\<rparr>)"
    and "Wrapping_readData ByteArrayImpl_vtable ?e ''....'' 2 = (-1, ''....'', [], ?e)"
    and "\<not> Wrapping_isSequential ByteArrayImpl_vtable ?c"
    by (simp_all add: m adv sz prod_eq_iff)
  with a1 b1 show ?thesis by simp
qed

subsection \<open>The scenario: HELLOWORLD through a chunk of four bytes\<close>

text \<open>
  C1: \<open>readPointer(maxLen)\<close> is to return at most \<open>maxLen\<close> bytes. With \<open>HELL\<close>
  buffered and nothing consumed, \<open>readPointer(1)\<close> returns the pointer at the consumed
  offset, reads nothing from the device and changes nothing, but answers the length 4:
  the buffered path returns \<open>filled - consumed\<close> without the clip to \<open>maxLen\<close>.
\<close>

theorem C1_readPointer_buffered_not_clipped:
  "IoDeviceImpl_readPointer mem_io (after_read mem_io (mem_cursor ''HELLOWORLD'' 4) (-1)) 1
     = ((Ptr 0, 4), [], after_read mem_io (mem_cursor ''HELLOWORLD'' 4) (-1))"
  by code_simp

text \<open>
  C3, as stated, fails at its third read: after \<open>advance(4)\<close>, a read of \<open>OWOR\<close> and
  \<open>advance(2)\<close>, the two buffered bytes that remain are \<open>OR\<close>, not \<open>LD\<close>.
\<close>

theorem C3_scenario_counterexample:
  "snd (offered mem_io
          (after_advance mem_io
             (after_read mem_io
                (after_advance mem_io
                   (after_read mem_io (mem_cursor ''HELLOWORLD'' 4) (-1)) 4) (-1)) 2) (-1))
     \<noteq> ''LD''"
  by code_simp

text \<open>
  C3, amended: over \<open>HELLOWORLD\<close> with chunk capacity 4, the first \<open>readPointer(-1)\<close>
  gives length 4 and \<open>HELL\<close>; after \<open>advance(4)\<close> it gives length 4 and \<open>OWOR\<close>; after
  \<open>advance(2)\<close> it gives the 2 buffered bytes \<open>OR\<close>. Continuing the read/advance loop
  from there yields \<open>ORLD\<close> within three rounds and ends with \<open>atEnd()\<close> true;
  \<open>reset()\<close> then returns true, and the loop yields \<open>HELLOWORLD\<close> again.
\<close>

theorem C3_scenario:
  "(let s0 = mem_cursor ''HELLOWORLD'' 4;
        s1 = after_read mem_io s0 (-1);
        s2 = after_advance mem_io s1 4;
        s3 = after_read mem_io s2 (-1);
        s4 = after_advance mem_io s3 2
    in offered mem_io s0 (-1) = (4, ''HELL'')
       \<and> offered mem_io s2 (-1) = (4, ''OWOR'')
       \<and> offered mem_io s4 (-1) = (2, ''OR'')
       \<and> (case drain mem_io 3 s4 of
             None \<Rightarrow> False
           | Some (rest, t) \<Rightarrow>
               rest = ''ORLD'' \<and> IoDeviceImpl_atEnd t
               \<and> (case IoDeviceImpl_reset mem_io t of
                     (ok, u) \<Rightarrow> ok \<and> map_option fst (drain mem_io 4 u) = Some ''HELLOWORLD'')))"
  by code_simp

end
